theory Spec2Isabelle
  imports Main "HOL-Library.Multiset"
begin

section \<open>The data model of \<open>ascii_game.py\<close>\<close>

text \<open>
  The enumerations \<open>Direction\<close> and \<open>ItemType\<close>, and the dataclasses \<open>Item\<close>, \<open>Room\<close> and
  \<open>Player\<close>. Python integers are unbounded, so every numeric field is an \<open>int\<close>.
  The fields \<open>name\<close> and \<open>description\<close> occur in several classes and are written qualified
  (\<open>Item.name\<close>, \<open>Room.name\<close>, \<open>Player.name\<close>).
\<close>

datatype Direction = NORTH | SOUTH | EAST | WEST

datatype ItemType = WEAPON | ARMOR | POTION | KEY | TREASURE

record Item =
  name :: string
  description :: string
  item_type :: ItemType
  damage :: int
  defense :: int
  healing :: int

text \<open>
  An enemy is a Python dictionary with the keys \<open>'name'\<close>, \<open>'health'\<close>, \<open>'damage'\<close> and
  \<open>'exp'\<close>. Dictionaries are mutable objects that the program shares by reference (the
  templates of a room) and copies (\<open>.copy()\<close> for the current enemy), so they live in an
  object store: an address is a natural number, and a room holds the addresses of its
  templates.
\<close>

type_synonym addr = nat

record Enemy =
  e_name :: string
  e_health :: int
  e_damage :: int
  e_exp :: int

text \<open>
  \<open>exits\<close> is a dictionary whose key order shows in the output of \<open>look\<close>, so it is an
  association list (with distinct keys); \<open>map_of\<close> is the lookup.
\<close>

record Room =
  name :: string
  description :: string
  exits :: "(Direction \<times> string) list"
  items :: "Item list"
  enemies :: "addr list"
  visited :: bool

record Player =
  name :: string
  health :: int
  max_health :: int
  inventory :: "Item list"
  current_room :: string
  gold :: int
  level :: int
  experience :: int

text \<open>
  The instance of \<open>ASCIIGame\<close>. \<open>player\<close> is \<open>None\<close> until \<open>start_game\<close>. \<open>heap\<close> and
  \<open>next_addr\<close> are the object store of the enemy dictionaries and its allocation pointer.
\<close>

record ASCIIGame =
  player :: "Player option"
  game_started :: bool
  game_over :: bool
  rooms :: "string \<rightharpoonup> Room"
  current_enemy :: "addr option"
  heap :: "addr \<Rightarrow> Enemy"
  next_addr :: addr

text \<open>The exceptions the methods can raise, and what they return.\<close>

datatype py_error = KeyError | AttributeError

text \<open>
  Every method returns a string. The model keeps the data each string is formatted from, one
  constructor per message, and drops the layout. A room description that is embedded in a
  larger message is a nested \<open>response\<close>.
\<close>

datatype response =
    GameNotStarted
  | RoomDescription string
  | EnemyAppears string string int
  | Welcome string response
  | LookResult response "string list" "string list"
  | CannotMoveInCombat
  | InvalidDirection string
  | CannotGo string
  | YouMove string response
  | PickedUpGold string
  | FoundTreasureChest
  | PickedUp string
  | ItemNotInRoom string
  | InventoryEmpty
  | InventoryList "(string \<times> string) list"
  | StatusReport string int int int int int int int string
  | NoEnemies
  | AttackDefeated string int int "int option"
  | AttackExchange string int int int int bool
  | UsedItem string int
  | CannotUse string
  | ItemNotInInventory string
  | HelpText
  | GameOverText
  | GameStateReport string int int int int "(string \<times> int) option"

type_synonym result = "(py_error + response) \<times> ASCIIGame"

section \<open>Strings\<close>

text \<open>
  \<open>str.lower()\<close> on the ASCII letters; every other character is left as it is. \<open>contains\<close>
  is Python's \<open>sub in s\<close>.
\<close>

definition lower_char :: "char \<Rightarrow> char" where
  "lower_char c =
     (case map_of (zip ''ABCDEFGHIJKLMNOPQRSTUVWXYZ'' ''abcdefghijklmnopqrstuvwxyz'') c of
        None \<Rightarrow> c
      | Some l \<Rightarrow> l)"

definition lower :: "string \<Rightarrow> string" where
  "lower s = map lower_char s"

fun starts_with :: "string \<Rightarrow> string \<Rightarrow> bool" where
  "starts_with s [] = True"
| "starts_with [] (c # sub) = False"
| "starts_with (d # s) (c # sub) = (d = c \<and> starts_with s sub)"

fun contains :: "string \<Rightarrow> string \<Rightarrow> bool" where
  "contains sub [] = (sub = [])"
| "contains sub (d # s) = (starts_with (d # s) sub \<or> contains sub s)"

text \<open>\<open>Direction(value)\<close>: the member with that value, or \<open>ValueError\<close> (here \<open>None\<close>).\<close>

definition Direction_of :: "string \<Rightarrow> Direction option" where
  "Direction_of s =
     (if s = ''north'' then Some NORTH
      else if s = ''south'' then Some SOUTH
      else if s = ''east'' then Some EAST
      else if s = ''west'' then Some WEST
      else None)"

fun Direction_value :: "Direction \<Rightarrow> string" where
  "Direction_value NORTH = ''north''"
| "Direction_value SOUTH = ''south''"
| "Direction_value EAST = ''east''"
| "Direction_value WEST = ''west''"

section \<open>The world\<close>

text \<open>
  \<open>_create_world\<close>. The description of a room is a boxed banner of several lines; it is
  display text only, and the model keeps its title line. The three enemy templates are the
  dictionaries allocated at the addresses 0, 1 and 2.
\<close>

definition mk_item :: "string \<Rightarrow> string \<Rightarrow> ItemType \<Rightarrow> int \<Rightarrow> int \<Rightarrow> int \<Rightarrow> Item" where
  "mk_item n d t dmg dfn heal =
     \<lparr>Item.name = n, Item.description = d, item_type = t, damage = dmg, defense = dfn,
      healing = heal\<rparr>"

definition entrance :: Room where
  "entrance =
     \<lparr>Room.name = ''Cave Entrance'', Room.description = ''CAVE ENTRANCE'',
      exits = [(NORTH, ''main_cavern'')],
      items = [mk_item ''Rusty Sword'' ''A basic sword with some rust'' WEAPON 5 0 0],
      enemies = [], visited = False\<rparr>"

definition main_cavern :: Room where
  "main_cavern =
     \<lparr>Room.name = ''Main Cavern'', Room.description = ''MAIN CAVERN'',
      exits = [(NORTH, ''treasure_room''), (SOUTH, ''entrance''), (EAST, ''goblin_camp''),
               (WEST, ''armory'')],
      items = [mk_item ''Health Potion'' ''Restores 30 health'' POTION 0 0 30],
      enemies = [0], visited = False\<rparr>"

definition goblin_camp :: Room where
  "goblin_camp =
     \<lparr>Room.name = ''Goblin Camp'', Room.description = ''GOBLIN CAMP'',
      exits = [(WEST, ''main_cavern'')],
      items = [mk_item ''Leather Armor'' ''Basic leather protection'' ARMOR 0 10 0,
               mk_item ''Gold Coins'' ''Shiny gold coins'' TREASURE 0 0 0],
      enemies = [1], visited = False\<rparr>"

definition armory :: Room where
  "armory =
     \<lparr>Room.name = ''Ancient Armory'', Room.description = ''ANCIENT ARMORY'',
      exits = [(EAST, ''main_cavern'')],
      items = [mk_item ''Steel Sword'' ''A well-crafted steel blade'' WEAPON 15 0 0,
               mk_item ''Iron Helmet'' ''Protective headgear'' ARMOR 0 8 0],
      enemies = [], visited = False\<rparr>"

definition treasure_room :: Room where
  "treasure_room =
     \<lparr>Room.name = ''Treasure Chamber'', Room.description = ''TREASURE CHAMBER'',
      exits = [(SOUTH, ''main_cavern'')],
      items = [mk_item ''Diamond Sword'' ''A legendary blade'' WEAPON 25 0 0,
               mk_item ''Golden Armor'' ''Magnificent golden protection'' ARMOR 0 20 0,
               mk_item ''Treasure Chest'' ''Filled with gold and jewels'' TREASURE 0 0 0],
      enemies = [2], visited = False\<rparr>"

definition create_world :: "string \<rightharpoonup> Room" where
  "create_world =
     [''entrance'' \<mapsto> entrance, ''main_cavern'' \<mapsto> main_cavern,
      ''goblin_camp'' \<mapsto> goblin_camp, ''armory'' \<mapsto> armory,
      ''treasure_room'' \<mapsto> treasure_room]"

definition cave_bat :: Enemy where
  "cave_bat = \<lparr>e_name = ''Cave Bat'', e_health = 20, e_damage = 8, e_exp = 15\<rparr>"

definition goblin_warrior :: Enemy where
  "goblin_warrior = \<lparr>e_name = ''Goblin Warrior'', e_health = 35, e_damage = 12, e_exp = 25\<rparr>"

definition dragon_guardian :: Enemy where
  "dragon_guardian =
     \<lparr>e_name = ''Dragon Guardian'', e_health = 100, e_damage = 20, e_exp = 100\<rparr>"

definition create_heap :: "addr \<Rightarrow> Enemy" where
  "create_heap =
     (\<lambda>a. \<lparr>e_name = [], e_health = 0, e_damage = 0, e_exp = 0\<rparr>)
       (0 := cave_bat, 1 := goblin_warrior, 2 := dragon_guardian)"

text \<open>\<open>ASCIIGame.__init__\<close>, and the default values of \<open>Player(name=player_name)\<close>.\<close>

definition init :: ASCIIGame where
  "init =
     \<lparr>player = None, game_started = False, game_over = False, rooms = create_world,
      current_enemy = None, heap = create_heap, next_addr = 3\<rparr>"

definition new_Player :: "string \<Rightarrow> Player" where
  "new_Player n =
     \<lparr>Player.name = n, health = 100, max_health = 100, inventory = [],
      current_room = ''entrance'', gold = 0, level = 1, experience = 0\<rparr>"

section \<open>The methods\<close>

text \<open>
  A method takes the instance and returns what it returns or raises, with the instance as
  the call leaves it (also when it raises). \<open>random.choice\<close> takes its random number
  \<open>rnd\<close> from the caller: it picks the element at \<open>rnd mod len\<close>.
\<close>

definition random_choice :: "nat \<Rightarrow> 'a list \<Rightarrow> 'a" where
  "random_choice rnd xs = xs ! (rnd mod length xs)"

definition get_room_description :: "nat \<Rightarrow> ASCIIGame \<Rightarrow> result" where
  "get_room_description rnd g =
     (if \<not> game_started g then (Inr GameNotStarted, g)
      else case player g of
        None \<Rightarrow> (Inl AttributeError, g)
      | Some p \<Rightarrow>
          (case rooms g (current_room p) of
             None \<Rightarrow> (Inl KeyError, g)
           | Some room \<Rightarrow>
               let g1 = g\<lparr>rooms := (rooms g)(current_room p \<mapsto> room\<lparr>visited := True\<rparr>)\<rparr>
               in if enemies room \<noteq> [] \<and> current_enemy g1 = None
                  then
                    let t = random_choice rnd (enemies room);
                        a = next_addr g1;
                        g2 = g1\<lparr>current_enemy := Some a, heap := (heap g1)(a := heap g1 t),
                                 next_addr := Suc a\<rparr>
                    in (Inr (EnemyAppears (Room.description room) (e_name (heap g2 a))
                               (e_health (heap g2 a))), g2)
                  else (Inr (RoomDescription (Room.description room)), g1)))"

text \<open>
  A message built around the room description: when \<open>_get_room_description\<close> raises, so
  does the caller, and the instance stays as the callee left it.
\<close>

fun embed :: "(response \<Rightarrow> response) \<Rightarrow> result \<Rightarrow> result" where
  "embed f (Inl e, g) = (Inl e, g)"
| "embed f (Inr d, g) = (Inr (f d), g)"

definition start_game :: "string \<Rightarrow> nat \<Rightarrow> ASCIIGame \<Rightarrow> result" where
  "start_game player_name rnd g =
     (let g1 = g\<lparr>player := Some (new_Player player_name), game_started := True,
                  game_over := False, current_enemy := None\<rparr>
      in embed (Welcome player_name) (get_room_description rnd g1))"

definition look :: "nat \<Rightarrow> ASCIIGame \<Rightarrow> result" where
  "look rnd g =
     (if \<not> game_started g then (Inr GameNotStarted, g)
      else case player g of
        None \<Rightarrow> (Inl AttributeError, g)
      | Some p \<Rightarrow>
          (case rooms g (current_room p) of
             None \<Rightarrow> (Inl KeyError, g)
           | Some room \<Rightarrow>
               let items_list = map Item.name (items room);
                   exits_list = map (Direction_value \<circ> fst) (exits room)
               in embed (\<lambda>d. LookResult d items_list exits_list)
                    (get_room_description rnd g)))"

definition move :: "string \<Rightarrow> nat \<Rightarrow> ASCIIGame \<Rightarrow> result" where
  "move direction rnd g =
     (if \<not> game_started g then (Inr GameNotStarted, g)
      else if current_enemy g \<noteq> None then (Inr CannotMoveInCombat, g)
      else case Direction_of (lower direction) of
        None \<Rightarrow> (Inr (InvalidDirection direction), g)
      | Some dir_enum \<Rightarrow>
          (case player g of
             None \<Rightarrow> (Inl AttributeError, g)
           | Some p \<Rightarrow>
               (case rooms g (current_room p) of
                  None \<Rightarrow> (Inl KeyError, g)
                | Some room \<Rightarrow>
                    (case map_of (exits room) dir_enum of
                       None \<Rightarrow> (Inr (CannotGo direction), g)
                     | Some target \<Rightarrow>
                         let g1 = g\<lparr>player := Some (p\<lparr>current_room := target\<rparr>)\<rparr>
                         in embed (YouMove direction) (get_room_description rnd g1)))))"

definition take_item :: "string \<Rightarrow> ASCIIGame \<Rightarrow> result" where
  "take_item item_name g =
     (if \<not> game_started g then (Inr GameNotStarted, g)
      else case player g of
        None \<Rightarrow> (Inl AttributeError, g)
      | Some p \<Rightarrow>
          (case rooms g (current_room p) of
             None \<Rightarrow> (Inl KeyError, g)
           | Some room \<Rightarrow>
               (case find (\<lambda>item. lower (Item.name item) = lower item_name) (items room) of
                  None \<Rightarrow> (Inr (ItemNotInRoom item_name), g)
                | Some item \<Rightarrow>
                    let p1 = p\<lparr>inventory := inventory p @ [item]\<rparr>;
                        room1 = room\<lparr>items := remove1 item (items room)\<rparr>;
                        g1 = g\<lparr>player := Some p1,
                                 rooms := (rooms g)(current_room p \<mapsto> room1)\<rparr>
                    in if item_type item = TREASURE \<and> Item.name item = ''Gold Coins''
                       then (Inr (PickedUpGold (Item.name item)),
                             g1\<lparr>player := Some (p1\<lparr>gold := gold p1 + 50\<rparr>)\<rparr>)
                       else if item_type item = TREASURE \<and> Item.name item = ''Treasure Chest''
                       then (Inr FoundTreasureChest,
                             g1\<lparr>player := Some (p1\<lparr>gold := gold p1 + 200\<rparr>)\<rparr>)
                       else (Inr (PickedUp (Item.name item)), g1))))"

definition show_inventory :: "ASCIIGame \<Rightarrow> result" where
  "show_inventory g =
     (if \<not> game_started g then (Inr GameNotStarted, g)
      else case player g of
        None \<Rightarrow> (Inl AttributeError, g)
      | Some p \<Rightarrow>
          if inventory p = [] then (Inr InventoryEmpty, g)
          else (Inr (InventoryList
                       (map (\<lambda>item. (Item.name item, Item.description item)) (inventory p))), g))"

definition weapon_damage :: "Item list \<Rightarrow> int" where
  "weapon_damage its = sum_list (map damage (filter (\<lambda>item. item_type item = WEAPON) its))"

definition armor_defense :: "Item list \<Rightarrow> int" where
  "armor_defense its = sum_list (map defense (filter (\<lambda>item. item_type item = ARMOR) its))"

definition status :: "ASCIIGame \<Rightarrow> result" where
  "status g =
     (if \<not> game_started g then (Inr GameNotStarted, g)
      else case player g of
        None \<Rightarrow> (Inl AttributeError, g)
      | Some p \<Rightarrow>
          let total_damage = weapon_damage (inventory p);
              total_defense = armor_defense (inventory p)
          in (case rooms g (current_room p) of
                None \<Rightarrow> (Inl KeyError, g)
              | Some room \<Rightarrow>
                  (Inr (StatusReport (Player.name p) (health p) (max_health p) (level p)
                          (experience p) (gold p) total_damage total_defense (Room.name room)),
                   g)))"

definition attack :: "ASCIIGame \<Rightarrow> result" where
  "attack g =
     (if \<not> game_started g then (Inr GameNotStarted, g)
      else case current_enemy g of
        None \<Rightarrow> (Inr NoEnemies, g)
      | Some a \<Rightarrow>
          (case player g of
             None \<Rightarrow> (Inl AttributeError, g)
           | Some p \<Rightarrow>
               let weapon_dmg = weapon_damage (inventory p);
                   base_damage = 5;
                   total_damage = base_damage + weapon_dmg;
                   enemy = (heap g a)\<lparr>e_health := e_health (heap g a) - total_damage\<rparr>;
                   g1 = g\<lparr>heap := (heap g)(a := enemy)\<rparr>
               in if e_health enemy \<le> 0
                  then
                    let exp_gained = e_exp enemy;
                        p1 = p\<lparr>experience := experience p + exp_gained\<rparr>;
                        g2 = g1\<lparr>current_enemy := None\<rparr>
                    in if experience p1 \<ge> level p1 * 50
                       then
                         let p2 = p1\<lparr>level := level p1 + 1\<rparr>;
                             p3 = p2\<lparr>max_health := max_health p2 + 20\<rparr>;
                             p4 = p3\<lparr>health := max_health p3\<rparr>
                         in (Inr (AttackDefeated (e_name enemy) total_damage exp_gained
                                    (Some (level p4))),
                             g2\<lparr>player := Some p4\<rparr>)
                       else (Inr (AttackDefeated (e_name enemy) total_damage exp_gained None),
                             g2\<lparr>player := Some p1\<rparr>)
                  else
                    let enemy_damage = e_damage enemy;
                        defense_total = armor_defense (inventory p);
                        actual_damage = max 1 (enemy_damage - defense_total);
                        p1 = p\<lparr>health := health p - actual_damage\<rparr>;
                        g2 = g1\<lparr>player := Some p1\<rparr>
                    in if health p1 \<le> 0
                       then (Inr (AttackExchange (e_name enemy) total_damage actual_damage
                                    (e_health enemy) (health p1) True),
                             g2\<lparr>game_over := True\<rparr>)
                       else (Inr (AttackExchange (e_name enemy) total_damage actual_damage
                                    (e_health enemy) (health p1) False),
                             g2)))"

definition use :: "string \<Rightarrow> ASCIIGame \<Rightarrow> result" where
  "use item_name g =
     (if \<not> game_started g then (Inr GameNotStarted, g)
      else case player g of
        None \<Rightarrow> (Inl AttributeError, g)
      | Some p \<Rightarrow>
          (case find (\<lambda>item. lower (Item.name item) = lower item_name) (inventory p) of
             None \<Rightarrow> (Inr (ItemNotInInventory item_name), g)
           | Some item \<Rightarrow>
               if item_type item = POTION \<and> contains ''health'' (lower (Item.name item))
               then
                 let p1 = p\<lparr>health := min (max_health p) (health p + healing item)\<rparr>;
                     p2 = p1\<lparr>inventory := remove1 item (inventory p1)\<rparr>
                 in (Inr (UsedItem (Item.name item) (healing item)), g\<lparr>player := Some p2\<rparr>)
               else (Inr (CannotUse (Item.name item)), g)))"

definition show_help :: "ASCIIGame \<Rightarrow> result" where
  "show_help g = (Inr HelpText, g)"

definition get_game_state :: "ASCIIGame \<Rightarrow> result" where
  "get_game_state g =
     (if \<not> game_started g then (Inr GameNotStarted, g)
      else if game_over g then (Inr GameOverText, g)
      else case player g of
        None \<Rightarrow> (Inl AttributeError, g)
      | Some p \<Rightarrow>
          (case rooms g (current_room p) of
             None \<Rightarrow> (Inl KeyError, g)
           | Some room \<Rightarrow>
               let enemy_info =
                     (case current_enemy g of
                        None \<Rightarrow> None
                      | Some a \<Rightarrow> Some (e_name (heap g a), e_health (heap g a)))
               in (Inr (GameStateReport (Room.name room) (health p) (max_health p) (level p)
                          (gold p) enemy_info), g)))"

section \<open>Sessions\<close>

text \<open>
  A session is a sequence of method calls on the global instance \<open>game = ASCIIGame()\<close>. The
  calls that can reach \<open>random.choice\<close> carry the random number.
\<close>

datatype op =
    StartGame string nat
  | Look nat
  | Move string nat
  | Take string
  | Inventory
  | Status
  | Attack
  | Use string
  | Help
  | GetGameState

fun step :: "op \<Rightarrow> ASCIIGame \<Rightarrow> result" where
  "step (StartGame n rnd) g = start_game n rnd g"
| "step (Look rnd) g = look rnd g"
| "step (Move d rnd) g = move d rnd g"
| "step (Take n) g = take_item n g"
| "step Inventory g = show_inventory g"
| "step Status g = status g"
| "step Attack g = attack g"
| "step (Use n) g = use n g"
| "step Help g = show_help g"
| "step GetGameState g = get_game_state g"

fun run :: "op list \<Rightarrow> ASCIIGame \<Rightarrow> ASCIIGame" where
  "run [] g = g"
| "run (c # cs) g = run cs (snd (step c g))"

inductive reachable :: "ASCIIGame \<Rightarrow> bool" where
  reachable_init: "reachable init"
| reachable_step: "reachable g \<Longrightarrow> reachable (snd (step c g))"

section \<open>Sample sessions\<close>

text \<open>
  Sessions on the world of \<open>_create_world\<close>, used to evaluate the theorems below: in the
  main cavern facing the Cave Bat; the bat one blow from defeat; the bat defeated; then
  north to the Dragon Guardian until the player's health is below zero; and, from the
  defeated bat, east for the Leather Armor and back to a new bat. \<open>duel\<close> is a started
  game with a given current enemy and inventory. The sessions with the Rusty Sword: taken
  at the entrance; one blow into the Cave Bat; and, the bat defeated, in the goblin camp
  with the Leather Armor taken. \<open>potion_bag\<close> carries a potion that does not heal, a sword
  and a healing potion.
\<close>

definition session_entrance :: ASCIIGame where
  "session_entrance = run [StartGame ''Al'' 0] init"

definition session_combat :: ASCIIGame where
  "session_combat = run [Move ''north'' 0] session_entrance"

definition session_last_blow :: ASCIIGame where
  "session_last_blow = run [Attack, Attack, Attack] session_combat"

definition session_bat_defeated :: ASCIIGame where
  "session_bat_defeated = run [Attack] session_last_blow"

definition session_defeated :: ASCIIGame where
  "session_defeated =
     run [Move ''north'' 0, Attack, Attack, Attack, Attack] session_bat_defeated"

definition session_armored :: ASCIIGame where
  "session_armored =
     run [Move ''east'' 0, Take ''leather armor'', Attack, Attack, Attack, Attack, Attack,
          Attack, Attack, Move ''west'' 0] session_bat_defeated"

definition duel :: "Enemy \<Rightarrow> Item list \<Rightarrow> ASCIIGame" where
  "duel e its =
     init\<lparr>player := Some ((new_Player ''Al'')\<lparr>inventory := its\<rparr>), game_started := True,
          current_enemy := Some 3, heap := (heap init)(3 := e), next_addr := 4\<rparr>"

definition session_sword :: ASCIIGame where
  "session_sword = run [Take ''rusty sword''] session_entrance"

definition session_sword_bat :: ASCIIGame where
  "session_sword_bat = run [Move ''north'' 0, Attack] session_sword"

definition session_sword_camp :: ASCIIGame where
  "session_sword_camp =
     run [Attack, Move ''east'' 0, Take ''leather armor''] session_sword_bat"

definition potion_bag :: ASCIIGame where
  "potion_bag =
     duel cave_bat
       [mk_item ''Mana Potion'' ''Restores 30 mana'' POTION 0 0 30,
        mk_item ''Rusty Sword'' ''A basic sword with some rust'' WEAPON 5 0 0,
        mk_item ''Health Potion'' ''Restores 30 health'' POTION 0 0 30]"

section \<open>Invariants of a session\<close>

text \<open>
  Where the items of the world are: \<open>placed_items\<close> collects the inventory and the item
  lists of the five rooms. No method creates an item, so in every session these stay
  within the items that \<open>_create_world\<close> placed.
\<close>

definition room_ids :: "string list" where
  "room_ids = [''entrance'', ''main_cavern'', ''goblin_camp'', ''armory'', ''treasure_room'']"

definition world_items :: "Item list" where
  "world_items =
     items entrance @ items main_cavern @ items goblin_camp @ items armory @ items treasure_room"

definition room_items :: "ASCIIGame \<Rightarrow> string \<Rightarrow> Item list" where
  "room_items g k = (case rooms g k of None \<Rightarrow> [] | Some room \<Rightarrow> items room)"

definition carried :: "ASCIIGame \<Rightarrow> Item list" where
  "carried g = (case player g of None \<Rightarrow> [] | Some p \<Rightarrow> inventory p)"

definition placed_items :: "ASCIIGame \<Rightarrow> Item multiset" where
  "placed_items g = mset (carried g) + (\<Sum>k\<leftarrow>room_ids. mset (room_items g k))"

definition items_inv :: "ASCIIGame \<Rightarrow> bool" where
  "items_inv g \<longleftrightarrow> dom (rooms g) \<subseteq> set room_ids \<and> placed_items g \<subseteq># mset world_items"

text \<open>
  Which enemy dictionaries are templates: the ones a room lists. The current enemy is never
  one of them, and every address in use is below the allocation pointer.
\<close>

definition is_template :: "ASCIIGame \<Rightarrow> addr \<Rightarrow> bool" where
  "is_template g t \<longleftrightarrow> (\<exists>k room. rooms g k = Some room \<and> t \<in> set (enemies room))"

definition copy_inv :: "ASCIIGame \<Rightarrow> bool" where
  "copy_inv g \<longleftrightarrow>
     (\<forall>t. is_template g t \<longrightarrow> t < next_addr g) \<and>
     (\<forall>a. current_enemy g = Some a \<longrightarrow> \<not> is_template g a \<and> a < next_addr g)"

text \<open>The bounds on the player's health that every session keeps.\<close>

definition health_inv :: "ASCIIGame \<Rightarrow> bool" where
  "health_inv g \<longleftrightarrow>
     (\<forall>p. player g = Some p \<longrightarrow>
        health p \<le> max_health p \<and> (\<not> game_over g \<longrightarrow> 0 < health p))"

section \<open>Helper facts\<close>

lemma get_room_description_player:
  "player (snd (get_room_description rnd g)) = player g"
  by (simp add: get_room_description_def Let_def split: option.splits)

lemma get_room_description_game_over:
  "game_over (snd (get_room_description rnd g)) = game_over g"
  by (simp add: get_room_description_def Let_def split: option.splits)

lemma snd_embed: "snd (embed f r) = snd r"
  by (cases r; cases "fst r") auto

lemma reachable_run: "reachable g \<Longrightarrow> reachable (run cs g)"
  by (induction cs arbitrary: g) (auto intro: reachable_step)

section \<open>The items of a session\<close>

lemma distinct_mset_sub:
  assumes "mset xs \<subseteq># mset ys" and "distinct ys"
  shows "distinct xs"
proof -
  have "count (mset xs) a = (if a \<in> set xs then 1 else 0)" for a
  proof (cases "a \<in> set xs")
    case True
    have "count (mset xs) a \<le> count (mset ys) a"
      using assms(1) by (rule mset_subset_eq_count)
    also have "\<dots> \<le> 1"
      using assms(2) by (simp add: distinct_count_atmost_1)
    finally have "count (mset xs) a \<le> 1" .
    moreover have "0 < count (mset xs) a"
      using True by (simp add: count_greater_zero_iff)
    ultimately have "count (mset xs) a = 1" by linarith
    then show ?thesis using True by simp
  next
    case False
    then show ?thesis by (simp add: count_eq_zero_iff)
  qed
  then show ?thesis
    by (simp add: distinct_count_atmost_1)
qed

lemma sum_list_update_key:
  fixes f :: "'a \<Rightarrow> 'b multiset"
  assumes "distinct ks" and "k \<in> set ks"
  shows "(\<Sum>x\<leftarrow>ks. (f(k := v)) x) + f k = (\<Sum>x\<leftarrow>ks. f x) + v"
  using assms
proof (induction ks)
  case Nil
  then show ?case by simp
next
  case (Cons x ks)
  show ?case
  proof (cases "x = k")
    case True
    with Cons.prems have "k \<notin> set ks" by simp
    then have "(\<Sum>x\<leftarrow>ks. (f(k := v)) x) = (\<Sum>x\<leftarrow>ks. f x)"
      by (intro arg_cong [where f = sum_list] map_cong) auto
    with True show ?thesis by simp
  next
    case False
    with Cons.prems have "distinct ks" and "k \<in> set ks" by simp_all
    from Cons.IH [OF this] False show ?thesis by (simp add: add.assoc)
  qed
qed

lemma items_inv_init: "items_inv init"
  by (simp add: items_inv_def init_def create_world_def placed_items_def carried_def
      room_items_def room_ids_def world_items_def)

lemma room_items_get_room_description:
  "room_items (snd (get_room_description rnd g)) = room_items g"
  by (rule ext) (simp add: room_items_def get_room_description_def Let_def split: option.splits)

lemma dom_get_room_description:
  "dom (rooms (snd (get_room_description rnd g))) = dom (rooms g)"
  by (auto simp add: get_room_description_def Let_def split: option.splits if_splits)

lemma carried_get_room_description:
  "carried (snd (get_room_description rnd g)) = carried g"
  by (simp add: carried_def get_room_description_player)

lemma placed_items_get_room_description:
  "placed_items (snd (get_room_description rnd g)) = placed_items g"
  by (simp add: placed_items_def room_items_get_room_description carried_get_room_description)

lemma placed_items_frame:
  "carried g' = carried g \<Longrightarrow> rooms g' = rooms g \<Longrightarrow> placed_items g' = placed_items g"
  by (simp add: placed_items_def room_items_def)

lemma placed_items_start_game:
  "placed_items (snd (start_game n rnd g)) \<subseteq># placed_items g"
  by (simp add: start_game_def Let_def snd_embed placed_items_get_room_description)
     (simp add: placed_items_def room_items_def carried_def new_Player_def)

lemma placed_items_look: "placed_items (snd (look rnd g)) = placed_items g"
  by (simp add: look_def Let_def snd_embed placed_items_get_room_description
      split: option.splits)

lemma placed_items_move: "placed_items (snd (move d rnd g)) = placed_items g"
  by (simp add: move_def Let_def snd_embed placed_items_get_room_description
      split: option.splits)
     (simp add: placed_items_def room_items_def carried_def)

lemma placed_items_attack: "placed_items (snd (attack g)) = placed_items g"
  by (rule placed_items_frame)
     (simp_all add: attack_def Let_def carried_def split: option.splits)

lemma placed_items_use: "placed_items (snd (use n g)) \<subseteq># placed_items g"
  by (simp add: use_def Let_def placed_items_def room_items_def carried_def
      split: option.splits)

lemma placed_items_take_item:
  assumes "dom (rooms g) \<subseteq> set room_ids"
  shows "placed_items (snd (take_item n g)) = placed_items g"
proof (cases "game_started g")
  case False
  then show ?thesis by (simp add: take_item_def)
next
  case started: True
  show ?thesis
  proof (cases "player g")
    case None
    with started show ?thesis by (simp add: take_item_def)
  next
    case (Some p)
    show ?thesis
    proof (cases "rooms g (current_room p)")
      case None
      with started Some show ?thesis by (simp add: take_item_def)
    next
      case room: (Some room)
      show ?thesis
      proof (cases "find (\<lambda>item. lower (Item.name item) = lower n) (items room)")
        case None
        with started Some room show ?thesis by (simp add: take_item_def)
      next
        case found: (Some item)
        let ?k = "current_room p"
        let ?f = "\<lambda>k. mset (room_items g k)"
        let ?g' = "snd (take_item n g)"
        have mem: "item \<in> set (items room)"
          using found by (auto simp: find_Some_iff)
        have k: "?k \<in> set room_ids" using assms room by auto
        have c: "mset (carried ?g') = mset (carried g) + {#item#}"
          using started Some room found by (simp add: take_item_def carried_def Let_def)
        have r: "(\<lambda>k. mset (room_items ?g' k)) = ?f(?k := mset (remove1 item (items room)))"
          using started Some room found
          by (auto simp add: take_item_def room_items_def Let_def fun_eq_iff)
        have fk: "?f ?k = mset (remove1 item (items room)) + {#item#}"
          using room mem by (simp add: room_items_def)
        have "(\<Sum>k\<leftarrow>room_ids. mset (room_items ?g' k)) + ?f ?k
                = (\<Sum>k\<leftarrow>room_ids. ?f k) + mset (remove1 item (items room))"
          unfolding r by (rule sum_list_update_key) (simp_all add: k, simp add: room_ids_def)
        then have "(\<Sum>k\<leftarrow>room_ids. mset (room_items ?g' k)) + {#item#}
                = (\<Sum>k\<leftarrow>room_ids. ?f k)"
          unfolding fk by (simp add: add.commute add.left_commute)
        then show ?thesis
          unfolding placed_items_def c by (simp add: add.assoc add.commute)
      qed
    qed
  qed
qed

lemma dom_rooms_step: "dom (rooms (snd (step c g))) = dom (rooms g)"
proof (cases c)
  case (StartGame n rnd)
  then show ?thesis by (simp add: start_game_def snd_embed dom_get_room_description)
next
  case (Look rnd)
  then show ?thesis
    by (simp add: look_def Let_def snd_embed dom_get_room_description split: option.splits)
next
  case (Move d rnd)
  then show ?thesis
    by (simp add: move_def Let_def snd_embed dom_get_room_description split: option.splits)
next
  case (Take n)
  then show ?thesis
    by (auto simp add: take_item_def Let_def split: option.splits if_splits)
next
  case Attack
  then show ?thesis by (simp add: attack_def Let_def split: option.splits)
next
  case (Use n)
  then show ?thesis by (simp add: use_def Let_def split: option.splits)
qed (simp_all add: show_inventory_def status_def show_help_def get_game_state_def Let_def
      split: option.splits)

lemma placed_items_step:
  assumes "dom (rooms g) \<subseteq> set room_ids"
  shows "placed_items (snd (step c g)) \<subseteq># placed_items g"
proof (cases c)
  case (Take n)
  then show ?thesis using placed_items_take_item [OF assms] by simp
qed (simp_all add: placed_items_start_game placed_items_look placed_items_move
      placed_items_attack placed_items_use show_inventory_def status_def show_help_def
      get_game_state_def Let_def split: option.splits)

lemma items_inv_step: "items_inv g \<Longrightarrow> items_inv (snd (step c g))"
  unfolding items_inv_def
  using placed_items_step [of g c] dom_rooms_step [of c g]
  by (metis subset_mset.order_trans)

lemma reachable_items_inv: "reachable g \<Longrightarrow> items_inv g"
  by (induction rule: reachable.induct) (auto intro: items_inv_init items_inv_step)

lemma items_inv_carried:
  assumes "items_inv g" and "player g = Some p"
  shows "mset (inventory p) \<subseteq># mset world_items"
proof -
  have "mset (inventory p) \<subseteq># placed_items g"
    using assms(2) by (simp add: placed_items_def carried_def)
  with assms(1) show ?thesis
    unfolding items_inv_def by (metis subset_mset.order_trans)
qed

section \<open>The enemy dictionaries of a session\<close>

lemma is_template_frame:
  "rooms g' = rooms g \<Longrightarrow> is_template g' = is_template g"
  by (simp add: is_template_def fun_eq_iff)

lemma is_template_rooms_update:
  assumes "rooms g k = Some room" and "enemies room' = enemies room"
    and "rooms g' = (rooms g)(k \<mapsto> room')"
  shows "is_template g' = is_template g"
proof (rule ext, rule iffI)
  fix t
  assume "is_template g' t"
  then obtain k1 r1 where a: "rooms g' k1 = Some r1" "t \<in> set (enemies r1)"
    unfolding is_template_def by blast
  show "is_template g t"
  proof (cases "k1 = k")
    case True
    then have "r1 = room'" using a(1) assms(3) by simp
    then have "t \<in> set (enemies room)" using a(2) assms(2) by simp
    then show ?thesis using assms(1) unfolding is_template_def by blast
  next
    case False
    then have "rooms g k1 = Some r1" using a(1) assms(3) by simp
    then show ?thesis using a(2) unfolding is_template_def by blast
  qed
next
  fix t
  assume "is_template g t"
  then obtain k1 r1 where a: "rooms g k1 = Some r1" "t \<in> set (enemies r1)"
    unfolding is_template_def by blast
  show "is_template g' t"
  proof (cases "k1 = k")
    case True
    then have "r1 = room" using a(1) assms(1) by simp
    then have "rooms g' k = Some room'" and "t \<in> set (enemies room')"
      using a(2) assms(2,3) by simp_all
    then show ?thesis unfolding is_template_def by blast
  next
    case False
    then have "rooms g' k1 = Some r1" using a(1) assms(3) by simp
    then show ?thesis using a(2) unfolding is_template_def by blast
  qed
qed

lemma rooms_get_room_description:
  "rooms (snd (get_room_description rnd g)) = rooms g \<or>
   (\<exists>k room. rooms g k = Some room \<and>
      rooms (snd (get_room_description rnd g)) = (rooms g)(k \<mapsto> room\<lparr>visited := True\<rparr>))"
  by (simp add: get_room_description_def Let_def split: option.splits) blast

lemma rooms_take_item:
  "rooms (snd (take_item n g)) = rooms g \<or>
   (\<exists>k room its. rooms g k = Some room \<and>
      rooms (snd (take_item n g)) = (rooms g)(k \<mapsto> room\<lparr>items := its\<rparr>))"
  by (simp add: take_item_def Let_def split: option.splits) blast

lemma is_template_get_room_description:
  "is_template (snd (get_room_description rnd g)) = is_template g"
  using rooms_get_room_description [of rnd g]
  by (auto intro: is_template_frame is_template_rooms_update [where room' = "r\<lparr>visited := True\<rparr>" for r])

lemma is_template_take_item: "is_template (snd (take_item n g)) = is_template g"
  using rooms_take_item [of n g]
  by (auto intro: is_template_frame is_template_rooms_update [where room' = "r\<lparr>items := i\<rparr>" for r i])

lemma start_game_state:
  "snd (start_game n rnd g)
     = snd (get_room_description rnd
              (g\<lparr>player := Some (new_Player n), game_started := True, game_over := False,
                 current_enemy := None\<rparr>))"
  by (simp add: start_game_def snd_embed Let_def)

lemma look_state:
  "snd (look rnd g) = g \<or> snd (look rnd g) = snd (get_room_description rnd g)"
  by (simp add: look_def snd_embed Let_def split: option.splits)

lemma move_state:
  "snd (move d rnd g) = g \<or>
   (\<exists>p t. player g = Some p \<and>
      snd (move d rnd g)
        = snd (get_room_description rnd (g\<lparr>player := Some (p\<lparr>current_room := t\<rparr>)\<rparr>)))"
  by (simp add: move_def snd_embed Let_def split: option.splits) blast

lemma rooms_attack: "rooms (snd (attack g)) = rooms g"
  by (simp add: attack_def Let_def split: option.splits)

lemma rooms_use: "rooms (snd (use n g)) = rooms g"
  by (simp add: use_def Let_def split: option.splits)

lemma query_state:
  "snd (show_inventory g) = g" "snd (status g) = g" "snd (show_help g) = g"
  "snd (get_game_state g) = g"
  by (simp_all add: show_inventory_def status_def show_help_def get_game_state_def Let_def
      split: option.splits)

lemma is_template_step: "is_template (snd (step c g)) = is_template g"
proof (cases c)
  case (StartGame n rnd)
  have "is_template (snd (start_game n rnd g))
          = is_template (g\<lparr>player := Some (new_Player n), game_started := True,
                            game_over := False, current_enemy := None\<rparr>)"
    unfolding start_game_state by (rule is_template_get_room_description)
  also have "\<dots> = is_template g"
    by (rule is_template_frame) simp
  finally show ?thesis using StartGame by simp
next
  case (Look rnd)
  from look_state [of rnd g] have "is_template (snd (look rnd g)) = is_template g"
    by (elim disjE) (simp_all add: is_template_get_room_description)
  then show ?thesis using Look by simp
next
  case (Move d rnd)
  from move_state [of d rnd g] have "is_template (snd (move d rnd g)) = is_template g"
  proof (elim disjE exE conjE)
    fix p t
    assume "snd (move d rnd g)
              = snd (get_room_description rnd (g\<lparr>player := Some (p\<lparr>current_room := t\<rparr>)\<rparr>))"
    then have "is_template (snd (move d rnd g))
                 = is_template (g\<lparr>player := Some (p\<lparr>current_room := t\<rparr>)\<rparr>)"
      by (simp add: is_template_get_room_description)
    also have "\<dots> = is_template g"
      by (rule is_template_frame) simp
    finally show ?thesis .
  qed simp
  then show ?thesis using Move by simp
next
  case (Take n)
  then show ?thesis by (simp add: is_template_take_item)
next
  case Attack
  have "is_template (snd (attack g)) = is_template g"
    by (rule is_template_frame) (rule rooms_attack)
  then show ?thesis using Attack by simp
next
  case (Use n)
  have "is_template (snd (use n g)) = is_template g"
    by (rule is_template_frame) (rule rooms_use)
  then show ?thesis using Use by simp
qed (simp_all add: query_state)

lemma create_world_rooms:
  "create_world k = Some room \<Longrightarrow>
   room \<in> {entrance, main_cavern, goblin_camp, armory, treasure_room}"
  by (simp add: create_world_def split: if_splits)

lemma create_world_enemies:
  assumes "room \<in> {entrance, main_cavern, goblin_camp, armory, treasure_room}"
    and "t \<in> set (enemies room)"
  shows "t < 3"
proof -
  have "set (enemies entrance) = {}" "set (enemies main_cavern) = {0}"
    "set (enemies goblin_camp) = {1}" "set (enemies armory) = {}"
    "set (enemies treasure_room) = {2}"
    by (simp_all add: entrance_def main_cavern_def goblin_camp_def armory_def
        treasure_room_def)
  with assms show ?thesis by auto
qed

lemma copy_inv_init: "copy_inv init"
proof -
  have "t < 3" if "is_template init t" for t
    using that create_world_rooms create_world_enemies
    unfolding is_template_def init_def by fastforce
  then show ?thesis by (simp add: copy_inv_def) (simp add: init_def)
qed

lemma alloc_get_room_description:
  "next_addr (snd (get_room_description rnd g)) = next_addr g \<and>
     current_enemy (snd (get_room_description rnd g)) = current_enemy g \<or>
   next_addr (snd (get_room_description rnd g)) = Suc (next_addr g) \<and>
     current_enemy (snd (get_room_description rnd g)) = Some (next_addr g)"
  by (simp add: get_room_description_def Let_def split: option.splits)

lemma copy_inv_get_room_description:
  assumes "copy_inv g"
  shows "copy_inv (snd (get_room_description rnd g))"
proof -
  let ?g' = "snd (get_room_description rnd g)"
  have t: "is_template ?g' = is_template g"
    by (rule is_template_get_room_description)
  have old: "\<And>t. is_template g t \<Longrightarrow> t < next_addr g"
    "\<And>a. current_enemy g = Some a \<Longrightarrow> \<not> is_template g a \<and> a < next_addr g"
    using assms unfolding copy_inv_def by blast+
  from alloc_get_room_description [of rnd g] show ?thesis
  proof (elim disjE conjE)
    assume "next_addr ?g' = next_addr g" and "current_enemy ?g' = current_enemy g"
    with old show ?thesis unfolding copy_inv_def t by simp
  next
    assume n: "next_addr ?g' = Suc (next_addr g)" and c: "current_enemy ?g' = Some (next_addr g)"
    have "\<not> is_template g (next_addr g)"
      using old(1) [of "next_addr g"] by auto
    with old(1) show ?thesis
      unfolding copy_inv_def t n c by (simp add: less_Suc_eq)
  qed
qed

lemma copy_inv_frame:
  "copy_inv g \<Longrightarrow> rooms g' = rooms g \<Longrightarrow> next_addr g' = next_addr g \<Longrightarrow>
   current_enemy g' = current_enemy g \<or> current_enemy g' = None \<Longrightarrow> copy_inv g'"
  by (auto simp add: copy_inv_def is_template_def)

lemma copy_inv_step:
  assumes "copy_inv g"
  shows "copy_inv (snd (step c g))"
proof (cases c)
  case (StartGame n rnd)
  have "copy_inv (g\<lparr>player := Some (new_Player n), game_started := True, game_over := False,
                    current_enemy := None\<rparr>)"
    by (rule copy_inv_frame [OF assms]) simp_all
  then have "copy_inv (snd (start_game n rnd g))"
    unfolding start_game_state by (rule copy_inv_get_room_description)
  then show ?thesis using StartGame by simp
next
  case (Look rnd)
  from look_state [of rnd g] have "copy_inv (snd (look rnd g))"
    by (elim disjE) (simp_all add: assms copy_inv_get_room_description)
  then show ?thesis using Look by simp
next
  case (Move d rnd)
  from move_state [of d rnd g] have "copy_inv (snd (move d rnd g))"
  proof (elim disjE exE conjE)
    fix p t
    assume s: "snd (move d rnd g)
              = snd (get_room_description rnd (g\<lparr>player := Some (p\<lparr>current_room := t\<rparr>)\<rparr>))"
    have "copy_inv (g\<lparr>player := Some (p\<lparr>current_room := t\<rparr>)\<rparr>)"
      by (rule copy_inv_frame [OF assms]) simp_all
    then show ?thesis unfolding s by (rule copy_inv_get_room_description)
  qed (simp add: assms)
  then show ?thesis using Move by simp
next
  case (Take n)
  have "next_addr (snd (take_item n g)) = next_addr g"
    and "current_enemy (snd (take_item n g)) = current_enemy g"
    by (simp_all add: take_item_def Let_def split: option.splits)
  then have "copy_inv (snd (take_item n g))"
    using assms unfolding copy_inv_def is_template_take_item by simp
  then show ?thesis using Take by simp
next
  case Attack
  have "copy_inv (snd (attack g))"
    by (rule copy_inv_frame [OF assms])
       (simp_all add: attack_def Let_def split: option.splits)
  then show ?thesis using Attack by simp
next
  case (Use n)
  have "copy_inv (snd (use n g))"
    by (rule copy_inv_frame [OF assms]) (simp_all add: use_def Let_def split: option.splits)
  then show ?thesis using Use by simp
qed (simp_all add: query_state assms)

lemma reachable_copy_inv: "reachable g \<Longrightarrow> copy_inv g"
  by (induction rule: reachable.induct) (auto intro: copy_inv_init copy_inv_step)

section \<open>The player's health in a session\<close>

lemma world_items_healing: "i \<in> set world_items \<Longrightarrow> 0 \<le> healing i"
  by (auto simp add: world_items_def entrance_def main_cavern_def goblin_camp_def armory_def
      treasure_room_def mk_item_def)

lemma health_inv_init: "health_inv init"
  by (simp add: health_inv_def init_def)

lemma health_inv_frame:
  "health_inv g \<Longrightarrow> map_option (\<lambda>p. (health p, max_health p)) (player g')
     = map_option (\<lambda>p. (health p, max_health p)) (player g) \<Longrightarrow>
   game_over g' = game_over g \<Longrightarrow> health_inv g'"
  by (cases "player g"; cases "player g'") (auto simp add: health_inv_def)

lemma health_inv_get_room_description:
  "health_inv g \<Longrightarrow> health_inv (snd (get_room_description rnd g))"
  by (erule health_inv_frame)
     (simp_all add: get_room_description_player get_room_description_game_over)

lemma health_inv_attack: "health_inv g \<Longrightarrow> health_inv (snd (attack g))"
  by (auto simp add: health_inv_def attack_def Let_def split: option.splits)

lemma health_inv_use:
  assumes "health_inv g" and "items_inv g"
  shows "health_inv (snd (use n g))"
proof (cases "player g")
  case None
  with assms(1) show ?thesis by (simp add: use_def health_inv_def)
next
  case (Some p)
  show ?thesis
  proof (cases "find (\<lambda>item. lower (Item.name item) = lower n) (inventory p)")
    case None
    with assms(1) Some show ?thesis by (simp add: use_def)
  next
    case found: (Some item)
    then have "item \<in> set (inventory p)"
      by (auto simp: find_Some_iff)
    then have "item \<in># mset (inventory p)" by simp
    then have "item \<in># mset world_items"
      using items_inv_carried [OF assms(2) Some] by (meson mset_subset_eqD)
    then have "0 \<le> healing item" by (simp add: world_items_healing)
    with assms(1) Some found show ?thesis
      by (auto simp add: health_inv_def use_def Let_def)
  qed
qed

lemma health_inv_step:
  assumes "health_inv g" and "items_inv g"
  shows "health_inv (snd (step c g))"
proof (cases c)
  case (StartGame n rnd)
  have "health_inv (g\<lparr>player := Some (new_Player n), game_started := True,
                      game_over := False, current_enemy := None\<rparr>)"
    by (simp add: health_inv_def new_Player_def)
  then have "health_inv (snd (start_game n rnd g))"
    unfolding start_game_state by (rule health_inv_get_room_description)
  then show ?thesis using StartGame by simp
next
  case (Look rnd)
  from look_state [of rnd g] have "health_inv (snd (look rnd g))"
    by (elim disjE) (simp_all add: assms(1) health_inv_get_room_description)
  then show ?thesis using Look by simp
next
  case (Move d rnd)
  from move_state [of d rnd g] have "health_inv (snd (move d rnd g))"
  proof (elim disjE exE conjE)
    fix p t
    assume p: "player g = Some p"
      and s: "snd (move d rnd g)
              = snd (get_room_description rnd (g\<lparr>player := Some (p\<lparr>current_room := t\<rparr>)\<rparr>))"
    have "health_inv (g\<lparr>player := Some (p\<lparr>current_room := t\<rparr>)\<rparr>)"
      by (rule health_inv_frame [OF assms(1)]) (simp_all add: p)
    then show ?thesis unfolding s by (rule health_inv_get_room_description)
  qed (simp add: assms(1))
  then show ?thesis using Move by simp
next
  case (Take n)
  have "health_inv (snd (take_item n g))"
    by (rule health_inv_frame [OF assms(1)])
       (simp_all add: take_item_def Let_def split: option.splits)
  then show ?thesis using Take by simp
next
  case Attack
  then show ?thesis using assms(1) by (simp add: health_inv_attack)
next
  case (Use n)
  then show ?thesis using assms by (simp add: health_inv_use)
qed (simp_all add: query_state assms(1))

lemma reachable_health_inv: "reachable g \<Longrightarrow> health_inv g"
proof (induction rule: reachable.induct)
  case reachable_init
  show ?case by (rule health_inv_init)
next
  case (reachable_step g c)
  then show ?case by (simp add: health_inv_step reachable_items_inv)
qed

section \<open>Movement\<close>

text \<open>
  C4. In a started game with no current enemy, whose player stands in an existing room:
  when the direction names an exit of the room, \<open>move\<close> assigns the exit's target to
  \<open>player.current_room\<close> and changes nothing else of the player; when the room has no exit
  in that direction, or the argument is not one of the four direction values, \<open>move\<close>
  returns the rejection and the game is unchanged.
\<close>

theorem move_exits:
  assumes "game_started g" and "current_enemy g = None" and "player g = Some p"
    and "rooms g (current_room p) = Some room"
  shows "(\<forall>d target. Direction_of (lower direction) = Some d \<longrightarrow>
            map_of (exits room) d = Some target \<longrightarrow>
            player (snd (move direction rnd g)) = Some (p\<lparr>current_room := target\<rparr>)) \<and>
         (\<forall>d. Direction_of (lower direction) = Some d \<longrightarrow>
            map_of (exits room) d = None \<longrightarrow>
            move direction rnd g = (Inr (CannotGo direction), g)) \<and>
         (Direction_of (lower direction) = None \<longrightarrow>
            move direction rnd g = (Inr (InvalidDirection direction), g))"
  using assms
  by (simp add: move_def snd_embed get_room_description_player)

theorem move_exits_witness:
  "game_started session_entrance \<and> current_enemy session_entrance = None \<and>
   player session_entrance = Some (new_Player ''Al'') \<and>
   rooms session_entrance (current_room (new_Player ''Al'')) = Some (entrance\<lparr>visited := True\<rparr>) \<and>
   player (snd (move ''North'' 0 session_entrance))
     = Some ((new_Player ''Al'')\<lparr>current_room := ''main_cavern''\<rparr>) \<and>
   move ''south'' 0 session_entrance = (Inr (CannotGo ''south''), session_entrance) \<and>
   move ''up'' 0 session_entrance = (Inr (InvalidDirection ''up''), session_entrance)"
proof -
  have s: "game_started session_entrance" by code_simp
  have e: "current_enemy session_entrance = None" by code_simp
  have p: "player session_entrance = Some (new_Player ''Al'')" by code_simp
  have r: "rooms session_entrance (current_room (new_Player ''Al''))
             = Some (entrance\<lparr>visited := True\<rparr>)" by code_simp
  have n: "Direction_of (lower ''North'') = Some NORTH" by code_simp
  have nt: "map_of (exits (entrance\<lparr>visited := True\<rparr>)) NORTH = Some ''main_cavern''"
    by code_simp
  have so: "Direction_of (lower ''south'') = Some SOUTH" by code_simp
  have sn: "map_of (exits (entrance\<lparr>visited := True\<rparr>)) SOUTH = None" by code_simp
  have u: "Direction_of (lower ''up'') = None" by code_simp
  show ?thesis
    using s e p r n nt so sn u move_exits [OF s e p r, of "''North''" 0]
      move_exits [OF s e p r, of "''south''" 0] move_exits [OF s e p r, of "''up''" 0]
    by simp
qed

text \<open>
  C5. In a started game with a current enemy, \<open>move\<close> returns the in-combat rejection for
  every direction argument, and the game is unchanged.
\<close>

theorem move_in_combat:
  "game_started g \<Longrightarrow> current_enemy g = Some a \<Longrightarrow>
   move direction rnd g = (Inr CannotMoveInCombat, g)"
  by (simp add: move_def)

theorem move_in_combat_witness:
  "game_started session_combat \<and> current_enemy session_combat = Some 3 \<and>
   move ''south'' 0 session_combat = (Inr CannotMoveInCombat, session_combat) \<and>
   move ''up'' 0 session_combat = (Inr CannotMoveInCombat, session_combat)"
proof -
  have s: "game_started session_combat" by code_simp
  have e: "current_enemy session_combat = Some 3" by code_simp
  show ?thesis
    using s e move_in_combat [OF s e, of "''south''" 0] move_in_combat [OF s e, of "''up''" 0]
    by simp
qed

section \<open>Combat\<close>

text \<open>
  C6. In a started game with a current enemy of health \<open>H\<close> and a player whose inventory
  has \<open>D\<close> as the sum of \<open>damage\<close> over its items of type \<open>WEAPON\<close>, one \<open>attack\<close>
  leaves the enemy's dictionary with health \<open>H - (5 + D)\<close>. When that is at most 0, the
  enemy's experience reward is added to the player's experience, the current enemy is
  cleared, \<open>game_over\<close> is not touched, and the player's health is as before unless the
  level-up check fires, which sets it to the raised \<open>max_health\<close>. Otherwise the enemy
  stays the current enemy.
\<close>

theorem attack_offensive_phase:
  assumes "game_started g" and "current_enemy g = Some a" and "player g = Some p"
    and "D = (\<Sum>item\<leftarrow>filter (\<lambda>item. item_type item = WEAPON) (inventory p). damage item)"
  shows "e_health (heap (snd (attack g)) a) = e_health (heap g a) - (5 + D) \<and>
         (e_health (heap g a) - (5 + D) \<le> 0 \<longrightarrow>
            current_enemy (snd (attack g)) = None \<and>
            map_option experience (player (snd (attack g)))
              = Some (experience p + e_exp (heap g a)) \<and>
            map_option health (player (snd (attack g)))
              = Some (if level p * 50 \<le> experience p + e_exp (heap g a)
                      then max_health p + 20 else health p) \<and>
            game_over (snd (attack g)) = game_over g) \<and>
         (0 < e_health (heap g a) - (5 + D) \<longrightarrow>
            current_enemy (snd (attack g)) = Some a)"
  using assms by (simp add: attack_def Let_def weapon_damage_def)

theorem attack_offensive_phase_witness:
  "game_started session_sword_camp \<and> current_enemy session_sword_camp = Some 4 \<and>
   map_option inventory (player session_sword_camp)
     = Some [mk_item ''Rusty Sword'' ''A basic sword with some rust'' WEAPON 5 0 0,
             mk_item ''Leather Armor'' ''Basic leather protection'' ARMOR 0 10 0] \<and>
   e_health (heap session_sword_camp 4) = 35 \<and>
   e_health (heap (snd (attack session_sword_camp)) 4) = 35 - (5 + 5) \<and>
   current_enemy (snd (attack session_sword_camp)) = Some 4 \<and>
   game_started session_sword_bat \<and> current_enemy session_sword_bat = Some 3 \<and>
   map_option health (player session_sword_bat) = Some 92 \<and>
   e_health (heap session_sword_bat 3) = 10 \<and>
   e_health (heap (snd (attack session_sword_bat)) 3) = 10 - (5 + 5) \<and>
   current_enemy (snd (attack session_sword_bat)) = None \<and>
   map_option experience (player (snd (attack session_sword_bat))) = Some 15 \<and>
   map_option health (player (snd (attack session_sword_bat))) = Some 92"
proof -
  define sword where
    "sword = mk_item ''Rusty Sword'' ''A basic sword with some rust'' WEAPON 5 0 0"
  define armor where
    "armor = mk_item ''Leather Armor'' ''Basic leather protection'' ARMOR 0 10 0"
  define p where
    "p = (new_Player ''Al'')\<lparr>health := 92, inventory := [sword, armor],
                             current_room := ''goblin_camp'', experience := 15\<rparr>"
  define q where
    "q = (new_Player ''Al'')\<lparr>health := 92, inventory := [sword],
                             current_room := ''main_cavern''\<rparr>"
  have s: "game_started session_sword_camp" by code_simp
  have e: "current_enemy session_sword_camp = Some 4" by code_simp
  have pl: "player session_sword_camp = Some p"
    unfolding p_def sword_def armor_def by code_simp
  have h: "heap session_sword_camp 4 = goblin_warrior" by code_simp
  have d: "(5::int) = (\<Sum>item\<leftarrow>filter (\<lambda>item. item_type item = WEAPON) (inventory p). damage item)"
    by (simp add: p_def sword_def armor_def mk_item_def)
  have s': "game_started session_sword_bat" by code_simp
  have e': "current_enemy session_sword_bat = Some 3" by code_simp
  have pl': "player session_sword_bat = Some q" unfolding q_def sword_def by code_simp
  have h': "heap session_sword_bat 3 = cave_bat\<lparr>e_health := 10\<rparr>" by code_simp
  have d': "(5::int) = (\<Sum>item\<leftarrow>filter (\<lambda>item. item_type item = WEAPON) (inventory q). damage item)"
    by (simp add: q_def sword_def mk_item_def)
  have v: "inventory p = [sword, armor]" "health q = 92" "experience q = 0" "level q = 1"
    by (simp_all add: p_def q_def new_Player_def)
  show ?thesis
    using s e s' e' attack_offensive_phase [OF s e pl d] attack_offensive_phase [OF s' e' pl' d']
    by (simp add: pl pl' h h' v goblin_warrior_def cave_bat_def)
       (simp add: sword_def armor_def)
qed

text \<open>
  C7. When the enemy survives the player's blow, the player's health goes down by exactly
  \<open>max 1 (E - F)\<close>, for the enemy's damage \<open>E\<close> and the sum \<open>F\<close> of the player's armor; so
  by exactly 1 when \<open>E - F \<le> 0\<close>.
\<close>

theorem attack_defensive_phase:
  assumes "game_started g" and "current_enemy g = Some a" and "player g = Some p"
    and "0 < e_health (heap g a) - (5 + weapon_damage (inventory p))"
  shows "map_option health (player (snd (attack g)))
           = Some (health p - max 1 (e_damage (heap g a) - armor_defense (inventory p))) \<and>
         (e_damage (heap g a) - armor_defense (inventory p) \<le> 0 \<longrightarrow>
            map_option health (player (snd (attack g))) = Some (health p - 1))"
  using assms by (simp add: attack_def Let_def max_def)

theorem attack_defensive_phase_witness:
  "game_started session_armored \<and> current_enemy session_armored = Some 5 \<and>
   map_option health (player session_armored) = Some 64 \<and>
   map_option (armor_defense \<circ> inventory) (player session_armored) = Some 10 \<and>
   e_damage (heap session_armored 5) = 8 \<and>
   map_option health (player (snd (attack session_armored))) = Some 63"
proof -
  define p where
    "p = (new_Player ''Al'')
           \<lparr>health := 64,
            inventory := [mk_item ''Leather Armor'' ''Basic leather protection'' ARMOR 0 10 0],
            current_room := ''main_cavern'', experience := 40\<rparr>"
  have s: "game_started session_armored" by code_simp
  have e: "current_enemy session_armored = Some 5" by code_simp
  have q: "player session_armored = Some p" unfolding p_def by code_simp
  have h: "heap session_armored 5 = cave_bat" by code_simp
  have w: "weapon_damage (inventory p) = 0" unfolding p_def by code_simp
  have d: "armor_defense (inventory p) = 10" unfolding p_def by code_simp
  have v: "health p = 64" by (simp add: p_def new_Player_def)
  have a: "0 < e_health (heap session_armored 5) - (5 + weapon_damage (inventory p))"
    by (simp add: h w cave_bat_def)
  show ?thesis
    using s e q attack_defensive_phase [OF s e q a]
    by (simp add: h d v cave_bat_def)
qed

text \<open>
  C8. A player at level 1 with experience 0 who defeats an enemy worth 50 experience or
  more is at level 2 after that \<open>attack\<close>, with \<open>max_health\<close> raised by 20 and health equal
  to the new \<open>max_health\<close>; nothing else of the player changes but the experience.
\<close>

theorem attack_level_up:
  assumes "game_started g" and "current_enemy g = Some a" and "player g = Some p"
    and "level p = 1" and "experience p = 0" and "50 \<le> e_exp (heap g a)"
    and "e_health (heap g a) - (5 + weapon_damage (inventory p)) \<le> 0"
  shows "player (snd (attack g))
           = Some (p\<lparr>experience := e_exp (heap g a), level := 2,
                     max_health := max_health p + 20, health := max_health p + 20\<rparr>)"
  using assms by (simp add: attack_def Let_def)

theorem attack_level_up_witness:
  "player (snd (attack (duel (dragon_guardian\<lparr>e_health := 5\<rparr>) [])))
     = Some ((new_Player ''Al'')\<lparr>experience := 100, level := 2, max_health := 120,
                                 health := 120\<rparr>)"
proof -
  let ?g = "duel (dragon_guardian\<lparr>e_health := 5\<rparr>) []"
  have s: "game_started ?g" by (simp add: duel_def)
  have e: "current_enemy ?g = Some 3" by (simp add: duel_def)
  have q: "player ?g = Some (new_Player ''Al'')" by (simp add: duel_def new_Player_def)
  have h: "heap ?g 3 = dragon_guardian\<lparr>e_health := 5\<rparr>" by (simp add: duel_def)
  have l: "level (new_Player ''Al'') = 1" "experience (new_Player ''Al'') = 0"
    by (simp_all add: new_Player_def)
  have x: "50 \<le> e_exp (heap ?g 3)" by code_simp
  have k: "e_health (heap ?g 3) - (5 + weapon_damage (inventory (new_Player ''Al''))) \<le> 0"
    by code_simp
  have m: "e_exp (heap ?g 3) = 100" by code_simp
  show ?thesis
    using attack_level_up [OF s e q l x k] unfolding m
    by (simp add: new_Player_def)
qed

section \<open>Using an item\<close>

lemma world_items_names: "distinct (map (\<lambda>i. lower (Item.name i)) world_items)"
  by code_simp

lemma reachable_inventory_names:
  assumes "reachable g" and "player g = Some p"
  shows "distinct (map (\<lambda>i. lower (Item.name i)) (inventory p))"
proof -
  have "mset (inventory p) \<subseteq># mset world_items"
    using assms(2) by (rule items_inv_carried [OF reachable_items_inv [OF assms(1)]])
  then have "mset (map (\<lambda>i. lower (Item.name i)) (inventory p))
               \<subseteq># mset (map (\<lambda>i. lower (Item.name i)) world_items)"
    unfolding mset_map by (rule image_mset_subseteq_mono)
  then show ?thesis using world_items_names by (rule distinct_mset_sub)
qed

lemma find_distinct_key:
  assumes "distinct (map f xs)" and "x \<in> set xs" and "f x = k"
  shows "find (\<lambda>y. f y = k) xs = Some x"
  using assms
proof (induction xs)
  case Nil
  then show ?case by simp
next
  case (Cons y ys)
  then show ?case by (cases "y = x") (auto simp add: rev_image_eqI)
qed

text \<open>
  C9. In a started game whose inventory has no two items with the same lowercased name
  (as in every session: \<open>reachable_inventory_names\<close>), when an item of the inventory has the name
  given to \<open>use\<close>, up to the case of the letters, and it is not a potion whose lowercased
  name contains \<open>health\<close> (it is no potion, or a potion of another name), then \<open>use\<close>
  returns the cannot-use rejection and the game, with the player and the inventory, is
  unchanged.
\<close>

theorem use_not_usable:
  assumes "game_started g" and "player g = Some p"
    and "distinct (map (\<lambda>i. lower (Item.name i)) (inventory p))"
    and "item \<in> set (inventory p)" and "lower (Item.name item) = lower item_name"
    and "\<not> (item_type item = POTION \<and> contains ''health'' (lower (Item.name item)))"
  shows "use item_name g = (Inr (CannotUse (Item.name item)), g)"
proof -
  have "find (\<lambda>y. lower (Item.name y) = lower item_name) (inventory p) = Some item"
    using assms(3,4,5) by (rule find_distinct_key)
  with assms(1,2,6) show ?thesis by (auto simp add: use_def)
qed

theorem use_not_usable_witness:
  "game_started potion_bag \<and>
   map_option (map (\<lambda>i. (Item.name i, item_type i)) \<circ> inventory) (player potion_bag)
     = Some [(''Mana Potion'', POTION), (''Rusty Sword'', WEAPON), (''Health Potion'', POTION)] \<and>
   use ''mana potion'' potion_bag = (Inr (CannotUse ''Mana Potion''), potion_bag) \<and>
   use ''RUSTY SWORD'' potion_bag = (Inr (CannotUse ''Rusty Sword''), potion_bag)"
proof -
  define mana where "mana = mk_item ''Mana Potion'' ''Restores 30 mana'' POTION 0 0 30"
  define sword where
    "sword = mk_item ''Rusty Sword'' ''A basic sword with some rust'' WEAPON 5 0 0"
  define potion where "potion = mk_item ''Health Potion'' ''Restores 30 health'' POTION 0 0 30"
  define p where "p = (new_Player ''Al'')\<lparr>inventory := [mana, sword, potion]\<rparr>"
  have s: "game_started potion_bag" by (simp add: potion_bag_def duel_def)
  have q: "player potion_bag = Some p"
    by (simp add: potion_bag_def duel_def p_def mana_def sword_def potion_def)
  have d: "distinct (map (\<lambda>i. lower (Item.name i)) (inventory p))"
    unfolding p_def mana_def sword_def potion_def by code_simp
  have im: "mana \<in> set (inventory p)" and "is": "sword \<in> set (inventory p)"
    by (simp_all add: p_def)
  have nm: "lower (Item.name mana) = lower ''mana potion''"
    unfolding mana_def by code_simp
  have ns: "lower (Item.name sword) = lower ''RUSTY SWORD''"
    unfolding sword_def by code_simp
  have um: "\<not> (item_type mana = POTION \<and> contains ''health'' (lower (Item.name mana)))"
    unfolding mana_def by code_simp
  have us: "\<not> (item_type sword = POTION \<and> contains ''health'' (lower (Item.name sword)))"
    unfolding sword_def by code_simp
  have v: "Item.name mana = ''Mana Potion''" "Item.name sword = ''Rusty Sword''"
    "item_type mana = POTION" "item_type sword = WEAPON"
    "Item.name potion = ''Health Potion''" "item_type potion = POTION"
    "inventory p = [mana, sword, potion]"
    by (simp_all add: mana_def sword_def potion_def mk_item_def p_def)
  show ?thesis
    using s use_not_usable [OF s q d im nm um] use_not_usable [OF s q d "is" ns us]
    by (simp add: q v)
qed


section \<open>After a defeat of the player\<close>

lemma get_room_description_flag_player:
  "get_room_description rnd (g\<lparr>game_over := b, player := q\<rparr>)
     = (fst (get_room_description rnd (g\<lparr>player := q\<rparr>)),
        (snd (get_room_description rnd (g\<lparr>player := q\<rparr>)))\<lparr>game_over := b\<rparr>)"
  by (auto simp add: get_room_description_def Let_def split: option.splits)

lemma embed_flag:
  "embed f (a, h\<lparr>game_over := b\<rparr>)
     = (fst (embed f (a, h)), (snd (embed f (a, h)))\<lparr>game_over := b\<rparr>)"
  by (cases a) auto

lemma move_flag:
  "move d rnd (g\<lparr>game_over := b\<rparr>)
     = (fst (move d rnd g), (snd (move d rnd g))\<lparr>game_over := b\<rparr>)"
  by (simp add: move_def Let_def get_room_description_flag_player embed_flag
      split: option.splits)

lemma take_item_flag:
  "take_item n (g\<lparr>game_over := b\<rparr>)
     = (fst (take_item n g), (snd (take_item n g))\<lparr>game_over := b\<rparr>)"
  by (simp add: take_item_def Let_def split: option.splits)

lemma use_flag:
  "use n (g\<lparr>game_over := b\<rparr>) = (fst (use n g), (snd (use n g))\<lparr>game_over := b\<rparr>)"
  by (simp add: use_def Let_def split: option.splits)

lemma attack_flag:
  "attack (g\<lparr>game_over := True\<rparr>) = (fst (attack g), (snd (attack g))\<lparr>game_over := True\<rparr>)"
  by (simp add: attack_def Let_def split: option.splits)

lemma query_flag:
  "status (g\<lparr>game_over := b\<rparr>) = (fst (status g), g\<lparr>game_over := b\<rparr>)"
  "show_inventory (g\<lparr>game_over := b\<rparr>) = (fst (show_inventory g), g\<lparr>game_over := b\<rparr>)"
  by (simp_all add: status_def show_inventory_def Let_def split: option.splits)

text \<open>
  C1, as the code has it. No method but \<open>get_game_state\<close> reads \<open>game_over\<close>. In a started
  game where \<open>game_over\<close> is recorded, \<open>move\<close>, \<open>take\<close>, \<open>use\<close> and \<open>attack\<close> return what
  they return in the same game without the flag and change the game in the same way, the
  flag staying recorded; \<open>status\<close> and \<open>inventory\<close> return their payloads of the game
  without the flag and change nothing; \<open>get_game_state\<close> returns the game-over text.
\<close>

theorem game_over_not_enforced:
  assumes "game_started g" and "game_over g"
  shows "move d rnd g = (fst (move d rnd (g\<lparr>game_over := False\<rparr>)),
                         (snd (move d rnd (g\<lparr>game_over := False\<rparr>)))\<lparr>game_over := True\<rparr>) \<and>
         take_item n g = (fst (take_item n (g\<lparr>game_over := False\<rparr>)),
                          (snd (take_item n (g\<lparr>game_over := False\<rparr>)))\<lparr>game_over := True\<rparr>) \<and>
         use n g = (fst (use n (g\<lparr>game_over := False\<rparr>)),
                    (snd (use n (g\<lparr>game_over := False\<rparr>)))\<lparr>game_over := True\<rparr>) \<and>
         attack g = (fst (attack (g\<lparr>game_over := False\<rparr>)),
                     (snd (attack (g\<lparr>game_over := False\<rparr>)))\<lparr>game_over := True\<rparr>) \<and>
         status g = (fst (status (g\<lparr>game_over := False\<rparr>)), g) \<and>
         show_inventory g = (fst (show_inventory (g\<lparr>game_over := False\<rparr>)), g) \<and>
         get_game_state g = (Inr GameOverText, g)"
proof -
  let ?g0 = "g\<lparr>game_over := False\<rparr>"
  have g: "g = ?g0\<lparr>game_over := True\<rparr>" using assms(2) by simp
  have "move d rnd (?g0\<lparr>game_over := True\<rparr>)
          = (fst (move d rnd ?g0), (snd (move d rnd ?g0))\<lparr>game_over := True\<rparr>)"
    by (rule move_flag)
  moreover have "take_item n (?g0\<lparr>game_over := True\<rparr>)
          = (fst (take_item n ?g0), (snd (take_item n ?g0))\<lparr>game_over := True\<rparr>)"
    by (rule take_item_flag)
  moreover have "use n (?g0\<lparr>game_over := True\<rparr>)
          = (fst (use n ?g0), (snd (use n ?g0))\<lparr>game_over := True\<rparr>)"
    by (rule use_flag)
  moreover have "attack (?g0\<lparr>game_over := True\<rparr>)
          = (fst (attack ?g0), (snd (attack ?g0))\<lparr>game_over := True\<rparr>)"
    by (rule attack_flag)
  moreover have "status (?g0\<lparr>game_over := True\<rparr>) = (fst (status ?g0), ?g0\<lparr>game_over := True\<rparr>)"
    by (rule query_flag)
  moreover have "show_inventory (?g0\<lparr>game_over := True\<rparr>)
          = (fst (show_inventory ?g0), ?g0\<lparr>game_over := True\<rparr>)"
    by (rule query_flag)
  moreover have "get_game_state g = (Inr GameOverText, g)"
    using assms by (simp add: get_game_state_def)
  ultimately show ?thesis
    unfolding g [symmetric] by simp
qed

theorem game_over_not_enforced_witness:
  "game_started session_defeated \<and> game_over session_defeated \<and>
   fst (attack session_defeated) = fst (attack (session_defeated\<lparr>game_over := False\<rparr>)) \<and>
   fst (status session_defeated) = fst (status (session_defeated\<lparr>game_over := False\<rparr>)) \<and>
   get_game_state session_defeated = (Inr GameOverText, session_defeated)"
proof -
  have s: "game_started session_defeated" by code_simp
  have o: "game_over session_defeated" by code_simp
  show ?thesis
    using s o game_over_not_enforced [OF s o, of "''north''" 0 "''sword''"] by simp
qed

theorem game_over_attack_counterexample:
  "game_started session_defeated \<and> game_over session_defeated \<and>
   map_option health (player session_defeated) = Some (- 4) \<and>
   fst (attack session_defeated)
     = Inr (AttackExchange ''Dragon Guardian'' 5 20 75 (- 24) True) \<and>
   map_option health (player (snd (attack session_defeated))) = Some (- 24) \<and>
   snd (attack session_defeated) \<noteq> session_defeated"
proof -
  have s: "game_started session_defeated" by code_simp
  have o: "game_over session_defeated" by code_simp
  have h: "map_option health (player session_defeated) = Some (- 4)" by code_simp
  have r: "fst (attack session_defeated)
             = Inr (AttackExchange ''Dragon Guardian'' 5 20 75 (- 24) True)" by code_simp
  have h': "map_option health (player (snd (attack session_defeated))) = Some (- 24)"
    by code_simp
  have "snd (attack session_defeated) \<noteq> session_defeated"
  proof
    assume "snd (attack session_defeated) = session_defeated"
    with h' have "map_option health (player session_defeated) = Some (- 24)"
      by (simp only:)
    with h show False by (simp only:) simp
  qed
  with s o h r h' show ?thesis by simp
qed

section \<open>Looking around\<close>

text \<open>
  C2, as the code has it. \<open>look\<close> runs the same room-entry check as an arrival: in a
  started game whose current room lists at least one enemy template and which has no
  current enemy (for instance because it was just defeated), \<open>look\<close> makes a new current
  enemy, a copy at a new address of one of the room's templates. The player is unchanged.
\<close>

theorem look_spawns_enemy:
  assumes "game_started g" and "player g = Some p"
    and "rooms g (current_room p) = Some room" and "enemies room \<noteq> []"
    and "current_enemy g = None"
  shows "current_enemy (snd (look rnd g)) = Some (next_addr g) \<and>
         heap (snd (look rnd g)) (next_addr g) = heap g (random_choice rnd (enemies room)) \<and>
         random_choice rnd (enemies room) \<in> set (enemies room) \<and>
         player (snd (look rnd g)) = Some p"
  using assms
  by (simp add: look_def snd_embed get_room_description_def Let_def random_choice_def)

theorem look_spawns_enemy_witness:
  "game_started session_bat_defeated \<and> current_enemy session_bat_defeated = None \<and>
   map_option current_room (player session_bat_defeated) = Some ''main_cavern'' \<and>
   map_option enemies (rooms session_bat_defeated ''main_cavern'') = Some [0] \<and>
   next_addr session_bat_defeated = 4 \<and>
   current_enemy (snd (look 7 session_bat_defeated)) = Some 4 \<and>
   heap (snd (look 7 session_bat_defeated)) 4 = heap session_bat_defeated 0"
proof -
  define p where
    "p = (new_Player ''Al'')\<lparr>health := 76, current_room := ''main_cavern'', experience := 15\<rparr>"
  define room where "room = main_cavern\<lparr>visited := True\<rparr>"
  have s: "game_started session_bat_defeated" by code_simp
  have q: "player session_bat_defeated = Some p" unfolding p_def by code_simp
  have r: "rooms session_bat_defeated (current_room p) = Some room"
    unfolding p_def room_def by code_simp
  have n: "enemies room \<noteq> []" unfolding room_def by code_simp
  have e: "current_enemy session_bat_defeated = None" by code_simp
  have a: "next_addr session_bat_defeated = 4" by code_simp
  have c: "random_choice 7 (enemies room) = 0" unfolding room_def by code_simp
  have m: "rooms session_bat_defeated ''main_cavern'' = Some room"
    unfolding room_def by code_simp
  have l: "enemies room = [0]" "current_room p = ''main_cavern''"
    unfolding room_def p_def by code_simp+
  show ?thesis
    using s e look_spawns_enemy [OF s q r n e, of 7]
    by (simp add: a c q m l)
qed

theorem look_after_defeat_counterexample:
  "fst (attack session_last_blow) = Inr (AttackDefeated ''Cave Bat'' 5 15 None) \<and>
   session_bat_defeated = snd (attack session_last_blow) \<and>
   current_enemy session_bat_defeated = None \<and>
   map_option current_room (player session_bat_defeated) = Some ''main_cavern'' \<and>
   map_option enemies (rooms session_bat_defeated ''main_cavern'') = Some [0] \<and>
   fst (look 0 session_bat_defeated)
     = Inr (LookResult (EnemyAppears ''MAIN CAVERN'' ''Cave Bat'' 20) [''Health Potion'']
              [''north'', ''south'', ''east'', ''west'']) \<and>
   current_enemy (snd (look 0 session_bat_defeated)) = Some 4 \<and>
   heap (snd (look 0 session_bat_defeated)) 4 = cave_bat"
proof -
  have "fst (attack session_last_blow) = Inr (AttackDefeated ''Cave Bat'' 5 15 None)"
    by code_simp
  moreover have "session_bat_defeated = snd (attack session_last_blow)"
    by (simp add: session_bat_defeated_def)
  moreover have "current_enemy session_bat_defeated = None" by code_simp
  moreover have "map_option current_room (player session_bat_defeated) = Some ''main_cavern''"
    by code_simp
  moreover have "map_option enemies (rooms session_bat_defeated ''main_cavern'') = Some [0]"
    by code_simp
  moreover have "fst (look 0 session_bat_defeated)
     = Inr (LookResult (EnemyAppears ''MAIN CAVERN'' ''Cave Bat'' 20) [''Health Potion'']
              [''north'', ''south'', ''east'', ''west''])"
    by code_simp
  moreover have "current_enemy (snd (look 0 session_bat_defeated)) = Some 4" by code_simp
  moreover have "heap (snd (look 0 session_bat_defeated)) 4 = cave_bat" by code_simp
  ultimately show ?thesis by simp
qed

section \<open>The bounds of the player's health\<close>

text \<open>
  C3, as the code has it. In every session the player's health is at most \<open>max_health\<close>,
  and it is positive as long as \<open>game_over\<close> is not recorded. No lower bound is stated
  for the states in which \<open>game_over\<close> is recorded.
\<close>

theorem health_bounds:
  assumes "reachable g" and "player g = Some p"
  shows "health p \<le> max_health p \<and> (\<not> game_over g \<longrightarrow> 0 < health p)"
  using reachable_health_inv [OF assms(1)] assms(2)
  by (simp add: health_inv_def)

theorem health_bounds_witness:
  "reachable session_armored \<and>
   map_option health (player session_armored) = Some 64 \<and>
   map_option max_health (player session_armored) = Some 100 \<and>
   \<not> game_over session_armored \<and> (64::int) \<le> 100 \<and> (0::int) < 64"
proof -
  define p where
    "p = (new_Player ''Al'')
           \<lparr>health := 64,
            inventory := [mk_item ''Leather Armor'' ''Basic leather protection'' ARMOR 0 10 0],
            current_room := ''main_cavern'', experience := 40\<rparr>"
  have r: "reachable session_armored"
    unfolding session_armored_def session_bat_defeated_def session_last_blow_def
      session_combat_def session_entrance_def
    by (intro reachable_run reachable_init)
  have q: "player session_armored = Some p" unfolding p_def by code_simp
  have o: "\<not> game_over session_armored" by code_simp
  have v: "health p = 64" "max_health p = 100" by (simp_all add: p_def new_Player_def)
  show ?thesis
    using r o health_bounds [OF r q] by (simp add: q v)
qed

theorem health_below_zero_counterexample:
  "reachable session_defeated \<and> game_over session_defeated \<and>
   map_option health (player session_defeated) = Some (- 4) \<and>
   reachable (run [Status] session_defeated) \<and>
   map_option health (player (run [Status] session_defeated)) = Some (- 4) \<and>
   reachable (run [Status, Attack] session_defeated) \<and>
   map_option health (player (run [Status, Attack] session_defeated)) = Some (- 24)"
proof -
  have r: "reachable session_defeated"
    unfolding session_defeated_def session_bat_defeated_def session_last_blow_def
      session_combat_def session_entrance_def
    by (intro reachable_run reachable_init)
  have "game_over session_defeated" by code_simp
  moreover have "map_option health (player session_defeated) = Some (- 4)" by code_simp
  moreover have "reachable (run [Status] session_defeated)"
    using r by (rule reachable_run)
  moreover have "map_option health (player (run [Status] session_defeated)) = Some (- 4)"
    by code_simp
  moreover have "reachable (run [Status, Attack] session_defeated)"
    using r by (rule reachable_run)
  moreover have
    "map_option health (player (run [Status, Attack] session_defeated)) = Some (- 24)"
    by code_simp
  ultimately show ?thesis using r by simp
qed

section \<open>The world under attack\<close>

text \<open>
  C10. In every session, \<open>attack\<close> leaves the dictionary of rooms as it is: the exits, the
  items and the enemy templates of every room. It also leaves every template dictionary as
  it is, because the current enemy is a copy at an address of its own. So when the current
  enemy is cleared, the next room-entry check in a room with templates copies a template
  that still has the health it had before the fight.
\<close>

theorem attack_keeps_world:
  assumes "reachable g"
  shows "rooms (snd (attack g)) = rooms g \<and>
         (\<forall>k room t. rooms g k = Some room \<longrightarrow> t \<in> set (enemies room) \<longrightarrow>
            heap (snd (attack g)) t = heap g t) \<and>
         (\<forall>p room rnd. game_started g \<longrightarrow> current_enemy (snd (attack g)) = None \<longrightarrow>
            player g = Some p \<longrightarrow> rooms g (current_room p) = Some room \<longrightarrow>
            enemies room \<noteq> [] \<longrightarrow>
            current_enemy (snd (get_room_description rnd (snd (attack g))))
              = Some (next_addr g) \<and>
            heap (snd (get_room_description rnd (snd (attack g)))) (next_addr g)
              = heap g (random_choice rnd (enemies room)))"
proof (intro conjI allI impI)
  show "rooms (snd (attack g)) = rooms g" by (rule rooms_attack)
next
  fix k room t
  assume "rooms g k = Some room" and "t \<in> set (enemies room)"
  then have t: "is_template g t" unfolding is_template_def by blast
  show "heap (snd (attack g)) t = heap g t"
  proof (cases "current_enemy g")
    case None
    then show ?thesis by (simp add: attack_def)
  next
    case (Some a)
    with t reachable_copy_inv [OF assms] have "a \<noteq> t"
      unfolding copy_inv_def by blast
    with Some show ?thesis
      by (simp add: attack_def Let_def split: option.splits)
  qed
next
  fix p room rnd
  assume s: "game_started g" and n: "current_enemy (snd (attack g)) = None"
    and p: "player g = Some p" and r: "rooms g (current_room p) = Some room"
    and e: "enemies room \<noteq> []"
  let ?t = "random_choice rnd (enemies room)"
  have "?t \<in> set (enemies room)" using e by (simp add: random_choice_def)
  with r have t: "is_template g ?t" unfolding is_template_def by blast
  have h: "heap (snd (attack g)) ?t = heap g ?t"
  proof (cases "current_enemy g")
    case None
    then show ?thesis by (simp add: attack_def)
  next
    case (Some a)
    with t reachable_copy_inv [OF assms] have "a \<noteq> ?t"
      unfolding copy_inv_def by blast
    with Some show ?thesis
      by (simp add: attack_def Let_def split: option.splits)
  qed
  have f: "game_started (snd (attack g))" "rooms (snd (attack g)) = rooms g"
    "next_addr (snd (attack g)) = next_addr g"
    "map_option current_room (player (snd (attack g))) = Some (current_room p)"
    using s p by (simp_all add: attack_def Let_def split: option.splits)
  from f(4) obtain p' where p': "player (snd (attack g)) = Some p'"
    "current_room p' = current_room p" by auto
  show "current_enemy (snd (get_room_description rnd (snd (attack g)))) = Some (next_addr g)"
    using f(1,2,3) p' n r e by (simp add: get_room_description_def Let_def)
  show "heap (snd (get_room_description rnd (snd (attack g)))) (next_addr g) = heap g ?t"
    using f(1,2,3) p' n r e h by (simp add: get_room_description_def Let_def)
qed

theorem attack_keeps_world_witness:
  "reachable session_last_blow \<and> game_started session_last_blow \<and>
   current_enemy session_last_blow = Some 3 \<and>
   rooms (snd (attack session_last_blow)) = rooms session_last_blow \<and>
   heap (snd (attack session_last_blow)) 0 = cave_bat \<and>
   current_enemy (snd (attack session_last_blow)) = None \<and>
   current_enemy (snd (get_room_description 0 (snd (attack session_last_blow)))) = Some 4 \<and>
   heap (snd (get_room_description 0 (snd (attack session_last_blow)))) 4 = cave_bat"
proof -
  define p where "p = (new_Player ''Al'')\<lparr>health := 76, current_room := ''main_cavern''\<rparr>"
  define room where "room = main_cavern\<lparr>visited := True\<rparr>"
  have r: "reachable session_last_blow"
    unfolding session_last_blow_def session_combat_def session_entrance_def
    by (intro reachable_run reachable_init)
  have s: "game_started session_last_blow" by code_simp
  have c: "current_enemy session_last_blow = Some 3" by code_simp
  have q: "player session_last_blow = Some p" unfolding p_def by code_simp
  have m: "rooms session_last_blow (current_room p) = Some room"
    unfolding p_def room_def by code_simp
  have e: "enemies room \<noteq> []" "0 \<in> set (enemies room)" "random_choice 0 (enemies room) = 0"
    unfolding room_def by code_simp+
  have n: "current_enemy (snd (attack session_last_blow)) = None" by code_simp
  have a: "next_addr session_last_blow = 4" by code_simp
  have h: "heap session_last_blow 0 = cave_bat" by code_simp
  note w = attack_keeps_world [OF r]
  from w have "rooms (snd (attack session_last_blow)) = rooms session_last_blow" by blast
  moreover from w m e(2) have "heap (snd (attack session_last_blow)) 0 = heap session_last_blow 0"
    by blast
  moreover from w s n q m e(1)
  have "current_enemy (snd (get_room_description 0 (snd (attack session_last_blow))))
          = Some (next_addr session_last_blow) \<and>
        heap (snd (get_room_description 0 (snd (attack session_last_blow))))
          (next_addr session_last_blow)
          = heap session_last_blow (random_choice 0 (enemies room))"
    by blast
  ultimately show ?thesis
    using r s c n by (simp add: a h e(3))
qed
end
